theory Spec2Isabelle
  imports Complex_Main
begin

section \<open>Kinetic sculpture: the animation core of multiple\_lights.cpp\<close>

text \<open>
  The program is one C++ translation unit: a free-fly camera, an animation clock that can
  be paused, four orbiting point lights and a 10 x 10 field of cubes, all recomputed in
  every iteration of the render loop.

  Numbers. Every \<^verbatim>\<open>float\<close> of the source is a \<^typ>\<open>real\<close> here, every
  float literal (\<^verbatim>\<open>2.2f\<close>) is the decimal it is written as, and \<^verbatim>\<open>sinf\<close>,
  \<^verbatim>\<open>cosf\<close>, \<^verbatim>\<open>sqrtf\<close> are \<^const>\<open>sin\<close>, \<^const>\<open>cos\<close>, \<^const>\<open>sqrt\<close>:
  the theory is about the formulas the program evaluates, in exact arithmetic, and says
  nothing about binary32 rounding, infinities or NaN. The \<^verbatim>\<open>int\<close> loop counters
  start at 0 and stay below 10, so they are \<^typ>\<open>nat\<close>.

  Scope. The state of the program is its file-scope variables; the window system is the
  input of each loop iteration (clock, keys, events). Of the drawing, the point-light
  positions and the model matrices of the cubes are modelled, as the values handed to the
  shaders; shader compilation, buffers, the projection and view matrices and the uniform
  uploads write no program state and are left out. The GLM functions are written out as
  the library defines them.
\<close>

subsection \<open>Vectors (glm::vec3) and the GLM functions the camera uses\<close>

datatype vec3 = Vec3 (vx: real) (vy: real) (vz: real)

text \<open>Component-wise \<^verbatim>\<open>a + b\<close>, \<^verbatim>\<open>a - b\<close>, \<^verbatim>\<open>v * k\<close> and \<^verbatim>\<open>k * v\<close> of
  glm::vec3.\<close>

fun vadd :: "vec3 \<Rightarrow> vec3 \<Rightarrow> vec3" where
  "vadd (Vec3 a b c) (Vec3 d e f) = Vec3 (a + d) (b + e) (c + f)"

fun vsub :: "vec3 \<Rightarrow> vec3 \<Rightarrow> vec3" where
  "vsub (Vec3 a b c) (Vec3 d e f) = Vec3 (a - d) (b - e) (c - f)"

fun vscale :: "vec3 \<Rightarrow> real \<Rightarrow> vec3" where
  "vscale (Vec3 a b c) k = Vec3 (a * k) (b * k) (c * k)"

fun smul :: "real \<Rightarrow> vec3 \<Rightarrow> vec3" where
  "smul k (Vec3 a b c) = Vec3 (k * a) (k * b) (k * c)"

text \<open>\<^verbatim>\<open>glm::dot\<close>, \<^verbatim>\<open>glm::cross\<close>, \<^verbatim>\<open>glm::inversesqrt\<close> and
  \<^verbatim>\<open>glm::normalize(v) = v * inversesqrt(dot(v, v))\<close>. On the zero vector the library
  divides by zero (the floats become infinite or NaN); HOL's \<open>1 / 0 = 0\<close> gives the zero
  vector there, and no theorem below relies on that value.\<close>

fun dot :: "vec3 \<Rightarrow> vec3 \<Rightarrow> real" where
  "dot (Vec3 a b c) (Vec3 d e f) = a * d + b * e + c * f"

fun cross :: "vec3 \<Rightarrow> vec3 \<Rightarrow> vec3" where
  "cross (Vec3 a b c) (Vec3 d e f) = Vec3 (b * f - e * c) (c * d - f * a) (a * e - d * b)"

definition inversesqrt :: "real \<Rightarrow> real" where
  "inversesqrt a = 1 / sqrt a"

definition normalize :: "vec3 \<Rightarrow> vec3" where
  "normalize v = vscale v (inversesqrt (dot v v))"

text \<open>\<^verbatim>\<open>glm::length\<close>, used only to state that a vector is a unit vector.\<close>

definition vlength :: "vec3 \<Rightarrow> real" where
  "vlength v = sqrt (dot v v)"

text \<open>\<^verbatim>\<open>glm::radians(deg)\<close> multiplies by \<open>\<pi> / 180\<close>;
  \<^verbatim>\<open>glm::clamp(a, lo, hi) = min(max(a, lo), hi)\<close>.\<close>

definition radians :: "real \<Rightarrow> real" where
  "radians deg = deg * (pi / 180)"

definition clamp :: "real \<Rightarrow> real \<Rightarrow> real \<Rightarrow> real" where
  "clamp a lo hi = min (max a lo) hi"

subsection \<open>struct Camera\<close>

record Camera =
  pos :: vec3
  front :: vec3
  up :: vec3
  yaw :: real
  pitch :: real
  zoom :: real

text \<open>The member initialisers of the struct: the global \<^verbatim>\<open>cam\<close> starts here.\<close>

definition cam_init :: Camera where
  "cam_init = \<lparr>pos = Vec3 0 8 20, front = Vec3 0 0 (- 1), up = Vec3 0 1 0,
     yaw = - 90, pitch = 0, zoom = 45\<rparr>"

definition moveForward :: "real \<Rightarrow> Camera \<Rightarrow> Camera" where
  "moveForward delta c = c\<lparr>pos := vadd (pos c) (vscale (front c) (5 * delta))\<rparr>"

definition moveBackward :: "real \<Rightarrow> Camera \<Rightarrow> Camera" where
  "moveBackward delta c = c\<lparr>pos := vsub (pos c) (vscale (front c) (5 * delta))\<rparr>"

definition moveLeft :: "real \<Rightarrow> Camera \<Rightarrow> Camera" where
  "moveLeft delta c =
     c\<lparr>pos := vsub (pos c) (vscale (normalize (cross (front c) (up c))) (5 * delta))\<rparr>"

definition moveRight :: "real \<Rightarrow> Camera \<Rightarrow> Camera" where
  "moveRight delta c =
     c\<lparr>pos := vadd (pos c) (vscale (normalize (cross (front c) (up c))) (5 * delta))\<rparr>"

text \<open>\<^verbatim>\<open>Camera::look\<close>: yaw is updated first, then pitch (clamped), and the front vector
  is recomputed from the new yaw and pitch.\<close>

definition look :: "real \<Rightarrow> real \<Rightarrow> Camera \<Rightarrow> Camera" where
  "look dx dy c =
     (let yaw' = yaw c + dx * 0.1;
          pitch' = clamp (pitch c + dy * 0.1) (- 89) 89
      in c\<lparr>yaw := yaw', pitch := pitch',
            front := normalize (Vec3
              (cos (radians yaw') * cos (radians pitch'))
              (sin (radians pitch'))
              (sin (radians yaw') * cos (radians pitch')))\<rparr>)"

subsection \<open>Globals, GLFW callbacks and input polling\<close>

text \<open>\<^verbatim>\<open>glfwGetKey\<close> answers \<^verbatim>\<open>GLFW_PRESS\<close> or \<^verbatim>\<open>GLFW_RELEASE\<close>.\<close>

datatype key_state = GLFW_RELEASE | GLFW_PRESS

text \<open>The file-scope variables, the function-local \<^verbatim>\<open>static int prev\<close> of
  \<^verbatim>\<open>processInput\<close>, and the window's close flag.\<close>

record globals =
  cam :: Camera
  lastX :: real
  lastY :: real
  firstMouse :: bool
  dt :: real
  lastFrame :: real
  paused :: bool
  animTime :: real
  prev :: key_state
  shouldClose :: bool

definition SCR_W :: real where "SCR_W = 1280"
definition SCR_H :: real where "SCR_H = 720"

definition globals_init :: globals where
  "globals_init = \<lparr>cam = cam_init, lastX = SCR_W / 2, lastY = SCR_H / 2, firstMouse = True,
     dt = 0, lastFrame = 0, paused = False, animTime = 0, prev = GLFW_RELEASE,
     shouldClose = False\<rparr>"

definition mouse_callback :: "real \<Rightarrow> real \<Rightarrow> globals \<Rightarrow> globals" where
  "mouse_callback xd yd g =
     (let g1 = (if firstMouse g then g\<lparr>lastX := xd, lastY := yd, firstMouse := False\<rparr> else g);
          g2 = g1\<lparr>cam := look (xd - lastX g1) (lastY g1 - yd) (cam g1)\<rparr>
      in g2\<lparr>lastX := xd, lastY := yd\<rparr>)"

definition scroll_callback :: "real \<Rightarrow> globals \<Rightarrow> globals" where
  "scroll_callback yo g = g\<lparr>cam := (cam g)\<lparr>zoom := clamp (zoom (cam g) - yo) 1 90\<rparr>\<rparr>"

text \<open>What one iteration of the render loop reads from the window system: the clock
  (\<^verbatim>\<open>glfwGetTime\<close>), the six keys \<^verbatim>\<open>processInput\<close> polls, and the events that
  \<^verbatim>\<open>glfwPollEvents\<close> delivers to the callbacks at the end of the iteration.\<close>

datatype event = CursorPos real real | Scroll real real | WindowClose

record frame =
  now :: real
  key_escape :: key_state
  key_w :: key_state
  key_s :: key_state
  key_a :: key_state
  key_d :: key_state
  key_space :: key_state
  events :: "event list"

definition processInput :: "frame \<Rightarrow> globals \<Rightarrow> globals" where
  "processInput f g =
     (let g1 = (if key_escape f = GLFW_PRESS then g\<lparr>shouldClose := True\<rparr> else g);
          g2 = (if key_w f = GLFW_PRESS then g1\<lparr>cam := moveForward (dt g1) (cam g1)\<rparr> else g1);
          g3 = (if key_s f = GLFW_PRESS then g2\<lparr>cam := moveBackward (dt g2) (cam g2)\<rparr> else g2);
          g4 = (if key_a f = GLFW_PRESS then g3\<lparr>cam := moveLeft (dt g3) (cam g3)\<rparr> else g3);
          g5 = (if key_d f = GLFW_PRESS then g4\<lparr>cam := moveRight (dt g4) (cam g4)\<rparr> else g4);
          cur = key_space f;
          g6 = (if cur = GLFW_PRESS \<and> prev g5 = GLFW_RELEASE
                then g5\<lparr>paused := \<not> paused g5\<rparr> else g5)
      in g6\<lparr>prev := cur\<rparr>)"

fun dispatch :: "event \<Rightarrow> globals \<Rightarrow> globals" where
  "dispatch (CursorPos xd yd) g = mouse_callback xd yd g"
| "dispatch (Scroll xo yo) g = scroll_callback yo g"
| "dispatch WindowClose g = g\<lparr>shouldClose := True\<rparr>"

text \<open>\<^verbatim>\<open>glfwPollEvents\<close>: the pending events, oldest first.\<close>

fun pollEvents :: "event list \<Rightarrow> globals \<Rightarrow> globals" where
  "pollEvents [] g = g"
| "pollEvents (e # es) g = pollEvents es (dispatch e g)"

subsection \<open>The render loop: clock and state\<close>

text \<open>The first three statements of the loop body: delta-time bookkeeping, then the
  animation clock, which advances only when not paused.\<close>

definition tick :: "real \<Rightarrow> globals \<Rightarrow> globals" where
  "tick t g =
     (let g1 = g\<lparr>dt := t - lastFrame g\<rparr>;
          g2 = g1\<lparr>lastFrame := t\<rparr>
      in if \<not> paused g2 then g2\<lparr>animTime := animTime g2 + dt g2\<rparr> else g2)"

text \<open>One iteration, as far as the program's state goes: tick, \<^verbatim>\<open>processInput\<close>, (drawing,
  which writes no global), \<^verbatim>\<open>glfwPollEvents\<close>.\<close>

definition frame_step :: "frame \<Rightarrow> globals \<Rightarrow> globals" where
  "frame_step f g = pollEvents (events f) (processInput f (tick (now f) g))"

text \<open>\<^verbatim>\<open>while (!glfwWindowShouldClose(win))\<close>, run on the inputs of finitely many
  iterations; the result lists the state at every evaluation of the loop condition, the
  starting state first. The loop stops when the close flag is set.\<close>

fun render_loop :: "globals \<Rightarrow> frame list \<Rightarrow> globals list" where
  "render_loop g [] = [g]"
| "render_loop g (f # fs) =
     (if shouldClose g then [g] else g # render_loop (frame_step f g) fs)"

subsection \<open>The light rig\<close>

text \<open>The per-light constants \<^verbatim>\<open>OR\<close> (orbit radius), \<^verbatim>\<open>OY\<close> (base height) and
  \<^verbatim>\<open>SP\<close> (angular speed), and \<^verbatim>\<open>glm::two_pi<float>()\<close>.\<close>

definition OR :: "real list" where "OR = [8, 11, 9, 6.5]"
definition OY :: "real list" where "OY = [3, 1.5, 5, 2.5]"
definition SP :: "real list" where "SP = [0.7, - 0.5, 1.1, - 0.9]"

definition two_pi :: real where "two_pi = 2 * pi"

text \<open>The body of \<^verbatim>\<open>for (int i = 0; i < 4; i++)\<close>: the value stored in
  \<^verbatim>\<open>ptPos[i]\<close> at animation time \<open>t\<close>.\<close>

definition light_pos :: "real \<Rightarrow> nat \<Rightarrow> vec3" where
  "light_pos t i =
     (let a = SP ! i * t + real i * two_pi / 4
      in Vec3 (OR ! i * cos a) (OY ! i + 1.5 * sin (t * 0.7 + real i)) (OR ! i * sin a))"

text \<open>The loop itself, filling the local array \<^verbatim>\<open>glm::vec3 ptPos[4]\<close>, whose
  contents before the loop are whatever the stack holds.\<close>

function ptPos_loop :: "real \<Rightarrow> nat \<Rightarrow> vec3 list \<Rightarrow> vec3 list" where
  "ptPos_loop t i ptPos =
     (if i < 4 then ptPos_loop t (i + 1) (ptPos[i := light_pos t i]) else ptPos)"
  by pat_completeness auto
termination
  by (relation "measure (\<lambda>(t, i, ptPos). 4 - i)") auto

declare ptPos_loop.simps [simp del]

subsection \<open>Matrices (glm::mat4) and the GLM transforms\<close>

text \<open>A \<^verbatim>\<open>glm::mat4\<close> is four columns; \<^verbatim>\<open>m[i]\<close> is column \<open>i\<close>.\<close>

datatype vec4 = Vec4 (wx: real) (wy: real) (wz: real) (ww: real)

datatype mat4 = Mat4 (col0: vec4) (col1: vec4) (col2: vec4) (col3: vec4)

fun v4add :: "vec4 \<Rightarrow> vec4 \<Rightarrow> vec4" where
  "v4add (Vec4 a b c d) (Vec4 e f g h) = Vec4 (a + e) (b + f) (c + g) (d + h)"

fun v4scale :: "vec4 \<Rightarrow> real \<Rightarrow> vec4" where
  "v4scale (Vec4 a b c d) k = Vec4 (a * k) (b * k) (c * k) (d * k)"

text \<open>\<^verbatim>\<open>glm::mat4(1.f)\<close>.\<close>

definition mat4_identity :: mat4 where
  "mat4_identity = Mat4 (Vec4 1 0 0 0) (Vec4 0 1 0 0) (Vec4 0 0 1 0) (Vec4 0 0 0 1)"

text \<open>\<^verbatim>\<open>glm::translate(m, v)\<close> replaces the last column by
  \<^verbatim>\<open>m[0] * v[0] + m[1] * v[1] + m[2] * v[2] + m[3]\<close>.\<close>

definition translate :: "mat4 \<Rightarrow> vec3 \<Rightarrow> mat4" where
  "translate m v =
     Mat4 (col0 m) (col1 m) (col2 m)
       (v4add (v4add (v4add (v4scale (col0 m) (vx v)) (v4scale (col1 m) (vy v)))
          (v4scale (col2 m) (vz v))) (col3 m))"

text \<open>\<^verbatim>\<open>glm::rotate(m, angle, v)\<close>: the axis-angle rotation matrix \<open>r\<close> built from the
  normalised axis, and the first three columns of \<open>m\<close> combined with it.\<close>

definition rotate :: "mat4 \<Rightarrow> real \<Rightarrow> vec3 \<Rightarrow> mat4" where
  "rotate m angle v =
     (let c = cos angle; s = sin angle;
          axis = normalize v;
          temp = smul (1 - c) axis;
          r00 = c + vx temp * vx axis;
          r01 = vx temp * vy axis + s * vz axis;
          r02 = vx temp * vz axis - s * vy axis;
          r10 = vy temp * vx axis - s * vz axis;
          r11 = c + vy temp * vy axis;
          r12 = vy temp * vz axis + s * vx axis;
          r20 = vz temp * vx axis + s * vy axis;
          r21 = vz temp * vy axis - s * vx axis;
          r22 = c + vz temp * vz axis
      in Mat4
           (v4add (v4add (v4scale (col0 m) r00) (v4scale (col1 m) r01)) (v4scale (col2 m) r02))
           (v4add (v4add (v4scale (col0 m) r10) (v4scale (col1 m) r11)) (v4scale (col2 m) r12))
           (v4add (v4add (v4scale (col0 m) r20) (v4scale (col1 m) r21)) (v4scale (col2 m) r22))
           (col3 m))"

text \<open>\<^verbatim>\<open>glm::scale(m, v)\<close> scales the first three columns.\<close>

definition scale :: "mat4 \<Rightarrow> vec3 \<Rightarrow> mat4" where
  "scale m v =
     Mat4 (v4scale (col0 m) (vx v)) (v4scale (col1 m) (vy v)) (v4scale (col2 m) (vz v)) (col3 m)"

subsection \<open>The sculpture field\<close>

definition GRID :: nat where "GRID = 10"
definition SPACING :: real where "SPACING = 2.2"

text \<open>\<^verbatim>\<open>float off = (GRID - 1) * SPACING * 0.5f\<close>, computed once before the loops.\<close>

definition off :: real where
  "off = real (GRID - 1) * SPACING * 0.5"

text \<open>The locals of the inner loop body, each as a function of what it is computed from:
  \<^verbatim>\<open>gx\<close>, \<^verbatim>\<open>gz\<close>, \<^verbatim>\<open>d\<close>, \<^verbatim>\<open>gy\<close>, \<^verbatim>\<open>spin\<close> and \<^verbatim>\<open>s\<close>.\<close>

definition cell_gx :: "nat \<Rightarrow> real" where
  "cell_gx col = real col * SPACING - off"

definition cell_gz :: "nat \<Rightarrow> real" where
  "cell_gz row = real row * SPACING - off"

definition cell_d :: "nat \<Rightarrow> nat \<Rightarrow> real" where
  "cell_d row col = sqrt (cell_gx col * cell_gx col + cell_gz row * cell_gz row)"

definition cell_gy :: "real \<Rightarrow> nat \<Rightarrow> nat \<Rightarrow> real" where
  "cell_gy t row col =
     2.0 * sin (cell_d row col * 0.55 - t * 2)
     + 0.8 * sin (cell_gx col * 0.5 + t * 1.3)
     + 0.8 * cos (cell_gz row * 0.5 - t * 1.1)"

definition cell_spin :: "real \<Rightarrow> nat \<Rightarrow> nat \<Rightarrow> real" where
  "cell_spin t row col = t * 50 + cell_d row col * 12"

definition cell_s :: "real \<Rightarrow> nat \<Rightarrow> nat \<Rightarrow> real" where
  "cell_s t row col = 0.88 + 0.12 * sin (t * 3 + cell_d row col)"

text \<open>The model matrix handed to the shader for the cell: three successive assignments
  to \<^verbatim>\<open>model\<close>, starting from the identity.\<close>

definition cell_model :: "real \<Rightarrow> nat \<Rightarrow> nat \<Rightarrow> mat4" where
  "cell_model t row col =
     (let model0 = mat4_identity;
          model1 = translate model0 (Vec3 (cell_gx col) (cell_gy t row col) (cell_gz row));
          model2 = rotate model1 (radians (cell_spin t row col)) (Vec3 0 1 0);
          model3 = scale model2 (Vec3 (cell_s t row col) (cell_s t row col) (cell_s t row col))
      in model3)"

text \<open>The two nested loops. Each cell issues one draw call; the result is the list of
  model matrices in the order of the draw calls.\<close>

function col_loop :: "real \<Rightarrow> nat \<Rightarrow> nat \<Rightarrow> mat4 list" where
  "col_loop t row col =
     (if col < GRID then cell_model t row col # col_loop t row (col + 1) else [])"
  by pat_completeness auto
termination
  by (relation "measure (\<lambda>(t, row, col). GRID - col)") auto

declare col_loop.simps [simp del]

function row_loop :: "real \<Rightarrow> nat \<Rightarrow> mat4 list" where
  "row_loop t row =
     (if row < GRID then col_loop t row 0 @ row_loop t (row + 1) else [])"
  by pat_completeness auto
termination
  by (relation "measure (\<lambda>(t, row). GRID - row)") auto

declare row_loop.simps [simp del]

definition draw_sculpture :: "real \<Rightarrow> mat4 list" where
  "draw_sculpture t = row_loop t 0"

subsection \<open>Vocabulary for stating the properties\<close>

text \<open>The product of two \<^verbatim>\<open>glm::mat4\<close> (\<^verbatim>\<open>operator*\<close>): column \<open>j\<close> of the product is
  the left matrix applied to column \<open>j\<close> of the right one.\<close>

fun mat4_apply :: "mat4 \<Rightarrow> vec4 \<Rightarrow> vec4" where
  "mat4_apply m (Vec4 a b c d) =
     v4add (v4add (v4add (v4scale (col0 m) a) (v4scale (col1 m) b)) (v4scale (col2 m) c))
       (v4scale (col3 m) d)"

definition mat4_mul :: "mat4 \<Rightarrow> mat4 \<Rightarrow> mat4" where
  "mat4_mul m1 m2 =
     Mat4 (mat4_apply m1 (col0 m2)) (mat4_apply m1 (col1 m2)) (mat4_apply m1 (col2 m2))
       (mat4_apply m1 (col3 m2))"

text \<open>The three elementary transforms, as the specification names them: a translation by
  \<open>(x, y, z)\<close>, a rotation about the vertical (Y) axis by an angle in radians, and a uniform
  scaling.\<close>

definition translation_matrix :: "real \<Rightarrow> real \<Rightarrow> real \<Rightarrow> mat4" where
  "translation_matrix x y z = Mat4 (Vec4 1 0 0 0) (Vec4 0 1 0 0) (Vec4 0 0 1 0) (Vec4 x y z 1)"

definition rotation_y_matrix :: "real \<Rightarrow> mat4" where
  "rotation_y_matrix a =
     Mat4 (Vec4 (cos a) 0 (- sin a) 0) (Vec4 0 1 0 0) (Vec4 (sin a) 0 (cos a) 0) (Vec4 0 0 0 1)"

definition scaling_matrix :: "real \<Rightarrow> mat4" where
  "scaling_matrix s = Mat4 (Vec4 s 0 0 0) (Vec4 0 s 0 0) (Vec4 0 0 s 0) (Vec4 0 0 0 1)"

text \<open>An iteration's input with no key down but possibly the space key.\<close>

definition key_frame :: "real \<Rightarrow> key_state \<Rightarrow> event list \<Rightarrow> frame" where
  "key_frame t sp es =
     \<lparr>now = t, key_escape = GLFW_RELEASE, key_w = GLFW_RELEASE, key_s = GLFW_RELEASE,
      key_a = GLFW_RELEASE, key_d = GLFW_RELEASE, key_space = sp, events = es\<rparr>"

text \<open>An iteration that does not ask the window to close.\<close>

definition no_close :: "frame \<Rightarrow> bool" where
  "no_close f \<longleftrightarrow> key_escape f = GLFW_RELEASE \<and> WindowClose \<notin> set (events f)"

text \<open>The states the program can be in between any two of its state-changing steps,
  also in the middle of an iteration: the start, and whatever \<^const>\<open>tick\<close>,
  \<^const>\<open>processInput\<close> and a callback make of a reachable state.\<close>

inductive reachable :: "globals \<Rightarrow> bool" where
  start: "reachable globals_init"
| clock: "reachable g \<Longrightarrow> reachable (tick t g)"
| input: "reachable g \<Longrightarrow> reachable (processInput f g)"
| callback: "reachable g \<Longrightarrow> reachable (dispatch e g)"


section \<open>Verification\<close>

subsection \<open>The light rig\<close>

lemma ptPos_loop_fill:
  "i \<le> 4 \<Longrightarrow> length a = 4 \<Longrightarrow> ptPos_loop t i a = take i a @ map (light_pos t) [i..<4]"
proof (induction t i a rule: ptPos_loop.induct)
  case (1 t i ptPos)
  show ?case
  proof (cases "i < 4")
    case True
    with "1.prems" have il: "i < length ptPos" by simp
    have "ptPos_loop t i ptPos = ptPos_loop t (i + 1) (ptPos[i := light_pos t i])"
      using True by (subst ptPos_loop.simps) simp
    also have "\<dots> = take (i + 1) (ptPos[i := light_pos t i]) @ map (light_pos t) [i + 1..<4]"
      using True "1.prems" by (intro "1.IH") simp_all
    also have "take (i + 1) (ptPos[i := light_pos t i]) = take i ptPos @ [light_pos t i]"
      using il by (simp add: take_Suc_conv_app_nth)
    also have "(take i ptPos @ [light_pos t i]) @ map (light_pos t) [i + 1..<4]
        = take i ptPos @ map (light_pos t) [i..<4]"
      using True by (simp add: upt_conv_Cons)
    finally show ?thesis .
  next
    case False
    with "1.prems" have "i = 4" by simp
    with "1.prems" show ?thesis by (subst ptPos_loop.simps) simp
  qed
qed

lemma ptPos_loop_nth:
  assumes "length a = 4" and "i < 4"
  shows "ptPos_loop t 0 a ! i = light_pos t i"
proof -
  from assms(1) have "ptPos_loop t 0 a = map (light_pos t) [0..<4]"
    by (simp add: ptPos_loop_fill)
  with assms(2) show ?thesis by simp
qed

text \<open>Claim C2. For every light index \<open>i < 4\<close> and every animation time \<open>t\<close>, the loop stores
  in \<^verbatim>\<open>ptPos[i]\<close> the point \<open>(radius[i] * cos a, baseHeight[i] + 1.5 * sin (0.7 t + i),
  radius[i] * sin a)\<close> with \<open>a = speed[i] * t + i * (2\<pi> / 4)\<close>, for the tables
  radius = (8, 11, 9, 6.5), baseHeight = (3, 1.5, 5, 2.5), speed = (0.7, -0.5, 1.1, -0.9).
  The value depends on \<open>t\<close> and \<open>i\<close> only: not on what the array held before the loop,
  and the loop writes nothing but the array.\<close>

theorem point_light_position:
  assumes "length a = 4" and "i < 4"
  shows "ptPos_loop t 0 a ! i =
    Vec3 ([8, 11, 9, 6.5] ! i * cos ([0.7, - 0.5, 1.1, - 0.9] ! i * t + real i * (2 * pi / 4)))
         ([3, 1.5, 5, 2.5] ! i + 1.5 * sin (0.7 * t + real i))
         ([8, 11, 9, 6.5] ! i * sin ([0.7, - 0.5, 1.1, - 0.9] ! i * t + real i * (2 * pi / 4)))"
proof -
  have "ptPos_loop t 0 a ! i = light_pos t i"
    using assms by (rule ptPos_loop_nth)
  also have "\<dots> = Vec3 ([8, 11, 9, 6.5] ! i * cos ([0.7, - 0.5, 1.1, - 0.9] ! i * t + real i * (2 * pi / 4)))
         ([3, 1.5, 5, 2.5] ! i + 1.5 * sin (0.7 * t + real i))
         ([8, 11, 9, 6.5] ! i * sin ([0.7, - 0.5, 1.1, - 0.9] ! i * t + real i * (2 * pi / 4)))"
    by (simp add: light_pos_def Let_def OR_def OY_def SP_def two_pi_def mult.commute)
  finally show ?thesis .
qed

text \<open>Light 0 at time 0 sits at \<open>(8, 3, 0)\<close>.\<close>

theorem point_light_position_witness:
  "length [Vec3 0 0 0, Vec3 0 0 0, Vec3 0 0 0, Vec3 0 0 0] = 4 \<and> (0::nat) < 4 \<and>
   ptPos_loop 0 0 [Vec3 0 0 0, Vec3 0 0 0, Vec3 0 0 0, Vec3 0 0 0] ! 0 = Vec3 8 3 0"
  using point_light_position [of "[Vec3 0 0 0, Vec3 0 0 0, Vec3 0 0 0, Vec3 0 0 0]" 0 0]
  by simp

text \<open>Claim C5. For every light index \<open>i < 4\<close> and every animation time \<open>t\<close>, the horizontal
  components of the light's position satisfy \<open>x\<^sup>2 + z\<^sup>2 = radius[i]\<^sup>2\<close>, exactly, in real
  arithmetic: the light stays on the circle of its radius.\<close>

theorem point_light_on_circle:
  assumes "length a = 4" and "i < 4"
  shows "(vx (ptPos_loop t 0 a ! i))\<^sup>2 + (vz (ptPos_loop t 0 a ! i))\<^sup>2 = ([8, 11, 9, 6.5] ! i)\<^sup>2"
proof -
  have p: "ptPos_loop t 0 a ! i = light_pos t i"
    using assms by (rule ptPos_loop_nth)
  have "(r * cos x)\<^sup>2 + (r * sin x)\<^sup>2 = r\<^sup>2" for r x :: real
  proof -
    have "(r * cos x)\<^sup>2 + (r * sin x)\<^sup>2 = r\<^sup>2 * ((cos x)\<^sup>2 + (sin x)\<^sup>2)"
      by (simp only: power_mult_distrib distrib_left)
    also have "\<dots> = r\<^sup>2" by simp
    finally show ?thesis .
  qed
  then show ?thesis
    by (simp add: p light_pos_def Let_def OR_def)
qed

text \<open>Light 1 at time 2: \<open>x\<^sup>2 + z\<^sup>2 = 11\<^sup>2\<close>.\<close>

theorem point_light_on_circle_witness:
  "length [Vec3 0 0 0, Vec3 0 0 0, Vec3 0 0 0, Vec3 0 0 0] = 4 \<and> (1::nat) < 4 \<and>
   (vx (ptPos_loop 2 0 [Vec3 0 0 0, Vec3 0 0 0, Vec3 0 0 0, Vec3 0 0 0] ! 1))\<^sup>2
   + (vz (ptPos_loop 2 0 [Vec3 0 0 0, Vec3 0 0 0, Vec3 0 0 0, Vec3 0 0 0] ! 1))\<^sup>2 = 121"
  using point_light_on_circle [of "[Vec3 0 0 0, Vec3 0 0 0, Vec3 0 0 0, Vec3 0 0 0]" 1 2]
  by simp

subsection \<open>The sculpture field\<close>

lemma col_loop_from:
  "col \<le> GRID \<Longrightarrow> col_loop t row col = map (cell_model t row) [col..<GRID]"
proof (induction t row col rule: col_loop.induct)
  case (1 t row col)
  show ?case
  proof (cases "col < GRID")
    case True
    then have "col_loop t row col = cell_model t row col # col_loop t row (col + 1)"
      by (subst col_loop.simps) simp
    also have "col_loop t row (col + 1) = map (cell_model t row) [col + 1..<GRID]"
      using True by (intro "1.IH") simp_all
    finally show ?thesis using True by (simp add: upt_conv_Cons)
  next
    case False
    then show ?thesis by (subst col_loop.simps) simp
  qed
qed

lemma length_col_loop: "length (col_loop t row 0) = GRID"
  by (simp add: col_loop_from)

lemma col_loop_nth: "col < GRID \<Longrightarrow> col_loop t row 0 ! col = cell_model t row col"
  by (simp add: col_loop_from)

lemma row_loop_nth:
  "row0 \<le> row \<Longrightarrow> row < GRID \<Longrightarrow> col < GRID \<Longrightarrow>
   row_loop t row0 ! ((row - row0) * GRID + col) = cell_model t row col"
proof (induction t row0 rule: row_loop.induct)
  case (1 t row0)
  from "1.prems" have lt: "row0 < GRID" by simp
  then have unfold: "row_loop t row0 = col_loop t row0 0 @ row_loop t (row0 + 1)"
    by (subst row_loop.simps) simp
  show ?case
  proof (cases "row = row0")
    case True
    with "1.prems" show ?thesis
      by (simp add: unfold nth_append length_col_loop col_loop_nth)
  next
    case False
    with "1.prems" have le: "row0 + 1 \<le> row" by simp
    then have "row - row0 = Suc (row - (row0 + 1))" by arith
    then have idx: "(row - row0) * GRID + col = GRID + ((row - (row0 + 1)) * GRID + col)"
      by simp
    have "row_loop t (row0 + 1) ! ((row - (row0 + 1)) * GRID + col) = cell_model t row col"
      using lt le "1.prems" by (intro "1.IH") simp_all
    then show ?thesis
      by (simp add: unfold idx nth_append length_col_loop del: add_Suc_right)
  qed
qed

lemma draw_sculpture_nth:
  assumes "row < 10" and "col < 10"
  shows "draw_sculpture t ! (row * 10 + col) = cell_model t row col"
  using row_loop_nth [of 0 row col t] assms by (simp add: draw_sculpture_def GRID_def)

lemma off_value: "off = 9.9"
  by (simp add: off_def GRID_def SPACING_def)

lemma normalize_y_axis: "normalize (Vec3 0 1 0) = Vec3 0 1 0"
  by (simp add: normalize_def inversesqrt_def)

lemma cell_model_product:
  "cell_model t row col =
     mat4_mul (mat4_mul (translation_matrix (cell_gx col) (cell_gy t row col) (cell_gz row))
                 (rotation_y_matrix (radians (cell_spin t row col))))
       (scaling_matrix (cell_s t row col))"
  by (simp add: cell_model_def Let_def translate_def rotate_def scale_def mat4_identity_def
      normalize_y_axis mat4_mul_def translation_matrix_def rotation_y_matrix_def
      scaling_matrix_def)

lemma cell_model_col3:
  "col3 (cell_model t row col) = Vec4 (cell_gx col) (cell_gy t row col) (cell_gz row) 1"
  by (simp add: cell_model_def Let_def translate_def rotate_def scale_def mat4_identity_def)

text \<open>What the model matrix does to a vertex \<open>(px, py, pz)\<close> of the unit cube: scaled by
  \<open>s\<close>, turned about the vertical axis by \<open>spin\<close> degrees, then moved to the cell's
  position.\<close>

lemma cell_model_apply:
  "mat4_apply (cell_model t row col) (Vec4 px py pz 1) =
     Vec4 (cell_gx col + cell_s t row col *
             (cos (radians (cell_spin t row col)) * px + sin (radians (cell_spin t row col)) * pz))
          (cell_gy t row col + cell_s t row col * py)
          (cell_gz row + cell_s t row col *
             (cos (radians (cell_spin t row col)) * pz - sin (radians (cell_spin t row col)) * px))
          1"
  by (simp add: cell_model_product mat4_mul_def translation_matrix_def rotation_y_matrix_def
      scaling_matrix_def algebra_simps)

text \<open>Claim C1. For every cell \<open>(row, col)\<close> of the 10 x 10 grid and every animation time
  \<open>t\<close>: \<open>x = col * 2.2 - offset\<close> and \<open>z = row * 2.2 - offset\<close> with
  \<open>offset = (10 - 1) * 2.2 / 2\<close>, the height is
  \<open>y = 2 sin (0.55 d - 2 t) + 0.8 sin (0.5 x + 1.3 t) + 0.8 cos (0.5 z - 1.1 t)\<close> with
  \<open>d = sqrt (x\<^sup>2 + z\<^sup>2)\<close>, and \<open>(x, y, z)\<close> is the world position of the cell: the
  translation column of the model matrix of draw call number \<open>row * 10 + col\<close>.\<close>

theorem cell_world_position:
  assumes "row < 10" and "col < 10"
  shows "let offset = (10 - 1) * 2.2 / 2;
             x = real col * 2.2 - offset;
             z = real row * 2.2 - offset;
             d = sqrt (x\<^sup>2 + z\<^sup>2);
             y = 2 * sin (0.55 * d - 2 * t) + 0.8 * sin (0.5 * x + 1.3 * t)
                 + 0.8 * cos (0.5 * z - 1.1 * t)
         in off = offset \<and> cell_gx col = x \<and> cell_gz row = z \<and> cell_gy t row col = y \<and>
            col3 (draw_sculpture t ! (row * 10 + col)) = Vec4 x y z 1"
proof -
  have gx: "cell_gx col = real col * 2.2 - (10 - 1) * 2.2 / 2"
    by (simp add: cell_gx_def off_value SPACING_def)
  have gz: "cell_gz row = real row * 2.2 - (10 - 1) * 2.2 / 2"
    by (simp add: cell_gz_def off_value SPACING_def)
  have d: "cell_d row col = sqrt ((cell_gx col)\<^sup>2 + (cell_gz row)\<^sup>2)"
    by (simp add: cell_d_def power2_eq_square)
  have gy: "cell_gy t row col =
      2 * sin (0.55 * sqrt ((cell_gx col)\<^sup>2 + (cell_gz row)\<^sup>2) - 2 * t)
      + 0.8 * sin (0.5 * cell_gx col + 1.3 * t) + 0.8 * cos (0.5 * cell_gz row - 1.1 * t)"
    by (simp add: cell_gy_def d mult.commute)
  have m: "col3 (draw_sculpture t ! (row * 10 + col))
      = Vec4 (cell_gx col) (cell_gy t row col) (cell_gz row) 1"
    using assms by (simp add: draw_sculpture_nth cell_model_col3)
  show ?thesis
    unfolding Let_def using gy m off_value by (simp only: gx gz) simp
qed

text \<open>The cell in row 4, column 5 is draw call 45, at \<open>x = 1.1\<close>, \<open>z = -1.1\<close>.\<close>

theorem cell_world_position_witness:
  "(4::nat) < 10 \<and> (5::nat) < 10 \<and> cell_gx 5 = 1.1 \<and> cell_gz 4 = - 1.1 \<and>
   col3 (draw_sculpture 0 ! 45) = Vec4 1.1 (cell_gy 0 4 5) (- 1.1) 1"
  using cell_world_position [of 4 5 0] by (simp add: Let_def)

text \<open>Claim C8. For every cell \<open>(row, col)\<close> of the grid and every animation time \<open>t\<close>, with
  \<open>d\<close> the distance of the cell from the grid centre (the origin): the rotation about the
  vertical axis is \<open>spin = 50 t + 12 d\<close> degrees, the uniform scale is
  \<open>0.88 + 0.12 sin (3 t + d)\<close>, and the model matrix of the cell's draw call is the product
  translation * rotation about Y * scaling, in this order.\<close>

theorem cell_transform:
  assumes "row < 10" and "col < 10"
  shows "let offset = (10 - 1) * 2.2 / 2;
             x = real col * 2.2 - offset;
             z = real row * 2.2 - offset;
             d = sqrt (x\<^sup>2 + z\<^sup>2);
             spin = 50 * t + 12 * d;
             s = 0.88 + 0.12 * sin (3 * t + d)
         in cell_d row col = d \<and> cell_spin t row col = spin \<and> cell_s t row col = s \<and>
            draw_sculpture t ! (row * 10 + col) =
              mat4_mul (mat4_mul (translation_matrix x (cell_gy t row col) z)
                          (rotation_y_matrix (spin * pi / 180)))
                (scaling_matrix s)"
proof -
  have gx: "real col * 2.2 - (10 - 1) * 2.2 / 2 = cell_gx col"
    by (simp add: cell_gx_def off_value SPACING_def)
  have gz: "real row * 2.2 - (10 - 1) * 2.2 / 2 = cell_gz row"
    by (simp add: cell_gz_def off_value SPACING_def)
  have d: "sqrt ((cell_gx col)\<^sup>2 + (cell_gz row)\<^sup>2) = cell_d row col"
    by (simp add: cell_d_def power2_eq_square)
  have spin: "50 * t + 12 * cell_d row col = cell_spin t row col"
    by (simp add: cell_spin_def)
  have s: "0.88 + 0.12 * sin (3 * t + cell_d row col) = cell_s t row col"
    by (simp add: cell_s_def mult.commute)
  have rad: "cell_spin t row col * pi / 180 = radians (cell_spin t row col)"
    by (simp add: radians_def)
  have "draw_sculpture t ! (row * 10 + col) = cell_model t row col"
    using assms by (rule draw_sculpture_nth)
  then show ?thesis
    unfolding Let_def gx gz d spin s rad by (simp add: cell_model_product)
qed

text \<open>The corner cell (0, 0) at time 0.\<close>

theorem cell_transform_witness:
  "(0::nat) < 10 \<and> (0::nat) < 10 \<and> cell_d 0 0 = sqrt (196.02) \<and>
   cell_spin 0 0 0 = 12 * sqrt (196.02) \<and> cell_s 0 0 0 = 0.88 + 0.12 * sin (sqrt (196.02)) \<and>
   draw_sculpture 0 ! 0 =
     mat4_mul (mat4_mul (translation_matrix (- 9.9) (cell_gy 0 0 0) (- 9.9))
                 (rotation_y_matrix (12 * sqrt (196.02) * pi / 180)))
       (scaling_matrix (0.88 + 0.12 * sin (sqrt (196.02))))"
  using cell_transform [of 0 0 0] by (simp add: Let_def power2_eq_square mult.commute)

lemma abs_sin_diff_le: "\<bar>sin a - sin b\<bar> \<le> \<bar>a - b\<bar>" for a b :: real
proof -
  have "\<bar>sin a - sin b\<bar> = 2 * \<bar>sin ((a - b) / 2)\<bar> * \<bar>cos ((a + b) / 2)\<bar>"
    by (simp add: sin_diff_sin abs_mult)
  also have "\<dots> \<le> 2 * \<bar>(a - b) / 2\<bar> * 1"
    by (intro mult_mono mult_nonneg_nonneg abs_sin_x_le_abs_x) simp_all
  finally show ?thesis by simp
qed

lemma corner_d_value: "cell_d 0 0 = sqrt (196.02)"
  by (simp add: cell_d_def cell_gx_def cell_gz_def off_value)

lemma corner_d_lower: "14.0007 \<le> cell_d 0 0"
  unfolding corner_d_value by (rule real_le_rsqrt) (simp add: power2_eq_square)

lemma corner_d_upper: "cell_d 0 0 < 14.00072"
  unfolding corner_d_value by (rule real_less_lsqrt) (simp_all add: power2_eq_square)

text \<open>Claim C3, as stated, gives the corner cell the distance \<open>d = 13.9986...\<close>. The program
  computes \<open>d = sqrt (9.9\<^sup>2 + 9.9\<^sup>2) = 14.0007...\<close>, which does not start with these
  digits.\<close>

theorem corner_cell_d_not_13_9986:
  "\<not> (13.9986 \<le> cell_d 0 0 \<and> cell_d 0 0 < 13.9987)"
  using corner_d_lower by simp

text \<open>Claim C3, amended. For the cell at row 0, column 0 at \<open>t = 0\<close>: \<open>offset = 9.9\<close>,
  \<open>x = -9.9\<close>, \<open>z = -9.9\<close>, \<open>d = 14.0007...\<close>, and
  \<open>y = 2 sin (0.55 d) + 0.8 sin (0.5 * -9.9) + 0.8 cos (-0.5 * -9.9)\<close>, which agrees with the
  value recomputed from the four-decimal \<open>d = 14.0007\<close> to within \<open>10\<^sup>-\<^sup>4\<close>.\<close>

theorem corner_cell_scenario:
  "off = 9.9 \<and> cell_gx 0 = - 9.9 \<and> cell_gz 0 = - 9.9 \<and>
   14.0007 \<le> cell_d 0 0 \<and> cell_d 0 0 < 14.0008 \<and>
   cell_gy 0 0 0 = 2 * sin (0.55 * cell_d 0 0) + 0.8 * sin (0.5 * - 9.9) + 0.8 * cos (- 0.5 * - 9.9) \<and>
   \<bar>cell_gy 0 0 0 - (2 * sin (0.55 * 14.0007) + 0.8 * sin (0.5 * - 9.9) + 0.8 * cos (- 0.5 * - 9.9))\<bar>
     \<le> 1 / 10 ^ 4"
proof -
  have gx: "cell_gx 0 = - 9.9" by (simp add: cell_gx_def off_value)
  have gz: "cell_gz 0 = - 9.9" by (simp add: cell_gz_def off_value)
  have "cos (- (99 / 20)) = cos (99 / 20 :: real)" by (rule cos_minus)
  then have gy: "cell_gy 0 0 0 =
      2 * sin (0.55 * cell_d 0 0) + 0.8 * sin (0.5 * - 9.9) + 0.8 * cos (- 0.5 * - 9.9)"
    by (simp add: cell_gy_def gx gz mult.commute)
  have "\<bar>sin (0.55 * cell_d 0 0) - sin (0.55 * 14.0007)\<bar> \<le> \<bar>0.55 * cell_d 0 0 - 0.55 * 14.0007\<bar>"
    by (rule abs_sin_diff_le)
  also have "\<dots> \<le> 0.55 * 0.00002"
    using corner_d_lower corner_d_upper by simp
  finally have near: "\<bar>sin (0.55 * cell_d 0 0) - sin (0.55 * 14.0007)\<bar> \<le> 0.000011" by simp
  have "cell_gy 0 0 0 -
      (2 * sin (0.55 * 14.0007) + 0.8 * sin (0.5 * - 9.9) + 0.8 * cos (- 0.5 * - 9.9))
      = 2 * (sin (0.55 * cell_d 0 0) - sin (0.55 * 14.0007))"
    unfolding gy by (simp only: algebra_simps)
  then have "\<bar>cell_gy 0 0 0 -
      (2 * sin (0.55 * 14.0007) + 0.8 * sin (0.5 * - 9.9) + 0.8 * cos (- 0.5 * - 9.9))\<bar>
      = 2 * \<bar>sin (0.55 * cell_d 0 0) - sin (0.55 * 14.0007)\<bar>"
    by (simp only: abs_mult)
  with near have tol: "\<bar>cell_gy 0 0 0 -
      (2 * sin (0.55 * 14.0007) + 0.8 * sin (0.5 * - 9.9) + 0.8 * cos (- 0.5 * - 9.9))\<bar>
      \<le> 1 / 10 ^ 4"
    by simp
  from corner_d_upper have "cell_d 0 0 < 14.0008" by simp
  with off_value gx gz corner_d_lower gy tol show ?thesis by blast
qed

subsection \<open>The camera\<close>

lemma reachable_pollEvents: "reachable g \<Longrightarrow> reachable (pollEvents es g)"
  by (induction es arbitrary: g) (simp_all add: reachable.callback)

lemma reachable_frame_step: "reachable g \<Longrightarrow> reachable (frame_step f g)"
  unfolding frame_step_def
  by (intro reachable_pollEvents reachable.input reachable.clock)

lemma render_loop_invariant:
  assumes "P g" and step: "\<And>f s. P s \<Longrightarrow> P (frame_step f s)"
  shows "\<forall>s \<in> set (render_loop g fs). P s"
  using assms(1)
proof (induction fs arbitrary: g)
  case Nil
  then show ?case by simp
next
  case (Cons f fs)
  from Cons.prems have "P (frame_step f g)" by (rule step)
  then have "\<forall>s \<in> set (render_loop (frame_step f g) fs). P s" by (rule Cons.IH)
  with Cons.prems show ?case by simp
qed

lemma render_loop_reachable: "\<forall>s \<in> set (render_loop globals_init fs). reachable s"
  by (rule render_loop_invariant [OF reachable.start reachable_frame_step])

lemma cam_tick: "cam (tick t g) = cam g"
  by (simp add: tick_def Let_def)

lemma firstMouse_tick: "firstMouse (tick t g) = firstMouse g"
  by (simp add: tick_def Let_def)

lemma orientation_processInput:
  "yaw (cam (processInput f g)) = yaw (cam g) \<and> pitch (cam (processInput f g)) = pitch (cam g)
   \<and> front (cam (processInput f g)) = front (cam g)"
  by (simp add: processInput_def Let_def moveForward_def moveBackward_def moveLeft_def
      moveRight_def)

lemma firstMouse_processInput: "firstMouse (processInput f g) = firstMouse g"
  by (simp add: processInput_def Let_def)

lemma pitch_look: "- 89 \<le> pitch (look dx dy c) \<and> pitch (look dx dy c) \<le> 89"
  by (simp add: look_def Let_def clamp_def)

lemma cam_mouse_callback:
  "cam (mouse_callback x y g) =
     (if firstMouse g then look 0 0 (cam g) else look (x - lastX g) (lastY g - y) (cam g))"
  by (simp add: mouse_callback_def Let_def)

lemma reachable_pitch: "reachable s \<Longrightarrow> - 89 \<le> pitch (cam s) \<and> pitch (cam s) \<le> 89"
proof (induction rule: reachable.induct)
  case start
  show ?case by (simp add: globals_init_def cam_init_def)
next
  case (clock g t)
  then show ?case by (simp add: cam_tick)
next
  case (input g f)
  then show ?case by (simp add: orientation_processInput)
next
  case (callback g e)
  then show ?case
    by (cases e) (simp_all add: cam_mouse_callback pitch_look scroll_callback_def)
qed

text \<open>One iteration from startup that delivers two cursor events: the first records the
  position, the second moves 1000 pixels up (to a smaller \<open>y\<close>) or down.\<close>

lemma pitch_after_upward_motion:
  "pitch (cam (frame_step (key_frame 0 GLFW_RELEASE [CursorPos 0 1000, CursorPos 0 0])
      globals_init)) = 89"
  by (simp add: frame_step_def key_frame_def cam_mouse_callback mouse_callback_def Let_def
      look_def clamp_def processInput_def tick_def globals_init_def cam_init_def)

lemma pitch_after_downward_motion:
  "pitch (cam (frame_step (key_frame 0 GLFW_RELEASE [CursorPos 0 0, CursorPos 0 1000])
      globals_init)) = - 89"
  by (simp add: frame_step_def key_frame_def cam_mouse_callback mouse_callback_def Let_def
      look_def clamp_def processInput_def tick_def globals_init_def cam_init_def)

lemma last_render_loop_one:
  "\<not> shouldClose g \<Longrightarrow> last (render_loop g [f]) = frame_step f g"
  by simp

text \<open>Claim C6, amended. In every state the render loop passes through, whatever the mouse
  events, the camera pitch lies in the closed interval \<open>[-89, 89]\<close> degrees: mouse motion
  never drives the pitch past 89.0 (or below -89.0). Both bounds are reached: a cursor
  motion of 1000 pixels upwards leaves the pitch at exactly 89, one of 1000 pixels downwards
  at exactly -89.\<close>

theorem pitch_within_closed_range:
  "(\<forall>s \<in> set (render_loop globals_init fs). - 89 \<le> pitch (cam s) \<and> pitch (cam s) \<le> 89)
   \<and> pitch (cam (last (render_loop globals_init
         [key_frame 0 GLFW_RELEASE [CursorPos 0 1000, CursorPos 0 0]]))) = 89
   \<and> pitch (cam (last (render_loop globals_init
         [key_frame 0 GLFW_RELEASE [CursorPos 0 0, CursorPos 0 1000]]))) = - 89"
proof -
  have nc: "\<not> shouldClose globals_init" by (simp add: globals_init_def)
  have "\<forall>s \<in> set (render_loop globals_init fs). - 89 \<le> pitch (cam s) \<and> pitch (cam s) \<le> 89"
    using render_loop_reachable reachable_pitch by blast
  then show ?thesis
    by (simp add: last_render_loop_one [OF nc] pitch_after_upward_motion
        pitch_after_downward_motion del: render_loop.simps)
qed

text \<open>The state after one iteration that delivers two cursor events, the second 1000 pixels
  above the first.\<close>

theorem pitch_within_closed_range_witness:
  "frame_step (key_frame 0 GLFW_RELEASE [CursorPos 0 1000, CursorPos 0 0]) globals_init
     \<in> set (render_loop globals_init [key_frame 0 GLFW_RELEASE [CursorPos 0 1000, CursorPos 0 0]])
   \<and> - 89 \<le> pitch (cam (frame_step (key_frame 0 GLFW_RELEASE [CursorPos 0 1000, CursorPos 0 0])
                  globals_init))
   \<and> pitch (cam (frame_step (key_frame 0 GLFW_RELEASE [CursorPos 0 1000, CursorPos 0 0])
                  globals_init)) \<le> 89"
proof -
  have "frame_step (key_frame 0 GLFW_RELEASE [CursorPos 0 1000, CursorPos 0 0]) globals_init
     \<in> set (render_loop globals_init [key_frame 0 GLFW_RELEASE [CursorPos 0 1000, CursorPos 0 0]])"
    by (simp add: globals_init_def)
  with pitch_within_closed_range
    [of "[key_frame 0 GLFW_RELEASE [CursorPos 0 1000, CursorPos 0 0]]"]
  show ?thesis by blast
qed

text \<open>Claim C6, as stated, puts the pitch strictly inside the open interval \<open>(-89, 89)\<close>.
  After the cursor events \<open>(0, 1000)\<close> and \<open>(0, 0)\<close> the first only records the position,
  the second asks for \<open>0 + 1000 * 0.1 = 100\<close> degrees, and the clamp leaves exactly 89.\<close>

theorem pitch_reaches_89:
  "pitch (cam (last (render_loop globals_init
       [key_frame 0 GLFW_RELEASE [CursorPos 0 1000, CursorPos 0 0]]))) = 89
   \<and> \<not> (- 89 < pitch (cam (last (render_loop globals_init
           [key_frame 0 GLFW_RELEASE [CursorPos 0 1000, CursorPos 0 0]])))
      \<and> pitch (cam (last (render_loop globals_init
           [key_frame 0 GLFW_RELEASE [CursorPos 0 1000, CursorPos 0 0]]))) < 89)"
proof -
  have nc: "\<not> shouldClose globals_init" by (simp add: globals_init_def)
  show ?thesis
    by (simp add: last_render_loop_one [OF nc] pitch_after_upward_motion
        del: render_loop.simps)
qed

lemma view_direction_unit:
  "dot (Vec3 (cos a * cos b) (sin b) (sin a * cos b))
       (Vec3 (cos a * cos b) (sin b) (sin a * cos b)) = 1"
proof -
  have "cos a * cos b * (cos a * cos b) + sin b * sin b + sin a * cos b * (sin a * cos b)
      = (cos b)\<^sup>2 * ((sin a)\<^sup>2 + (cos a)\<^sup>2) + (sin b)\<^sup>2"
    by (simp only: power2_eq_square algebra_simps)
  also have "\<dots> = 1" by simp
  finally show ?thesis by simp
qed

lemma normalize_unit: "dot v v = 1 \<Longrightarrow> normalize v = v"
  by (cases v) (simp add: normalize_def inversesqrt_def)

lemma front_look:
  "front (look dx dy c) =
     Vec3 (cos (radians (yaw (look dx dy c))) * cos (radians (pitch (look dx dy c))))
          (sin (radians (pitch (look dx dy c))))
          (sin (radians (yaw (look dx dy c))) * cos (radians (pitch (look dx dy c))))"
  by (simp add: look_def Let_def normalize_unit view_direction_unit del: dot.simps)

lemma vlength_front_look: "vlength (front (look dx dy c)) = 1"
  by (simp add: front_look vlength_def view_direction_unit del: dot.simps)

lemma reachable_front_unit: "reachable s \<Longrightarrow> vlength (front (cam s)) = 1"
proof (induction rule: reachable.induct)
  case start
  show ?case by (simp add: globals_init_def cam_init_def vlength_def)
next
  case (clock g t)
  then show ?case by (simp add: cam_tick)
next
  case (input g f)
  then show ?case by (simp add: orientation_processInput)
next
  case (callback g e)
  then show ?case
    by (cases e) (simp_all add: cam_mouse_callback vlength_front_look scroll_callback_def)
qed

text \<open>Claim C9. The camera's front vector is always a unit vector: it starts as one, every
  \<^verbatim>\<open>look\<close> leaves one (from any camera), the four movement operations do not touch
  it, and so it is one in every state the render loop passes through.\<close>

theorem front_always_unit:
  "vlength (front cam_init) = 1
   \<and> vlength (front (look dx dy c)) = 1
   \<and> front (moveForward delta c) = front c \<and> front (moveBackward delta c) = front c
   \<and> front (moveLeft delta c) = front c \<and> front (moveRight delta c) = front c
   \<and> (\<forall>s \<in> set (render_loop globals_init fs). vlength (front (cam s)) = 1)"
proof -
  have "\<forall>s \<in> set (render_loop globals_init fs). vlength (front (cam s)) = 1"
    using render_loop_reachable reachable_front_unit by blast
  moreover have "vlength (front cam_init) = 1"
    by (simp add: cam_init_def vlength_def)
  ultimately show ?thesis
    by (simp add: vlength_front_look moveForward_def moveBackward_def moveLeft_def
        moveRight_def)
qed

text \<open>The state after one iteration with two cursor events, the second a look to the right
  and up.\<close>

theorem front_always_unit_witness:
  "frame_step (key_frame 1 GLFW_RELEASE [CursorPos 0 0, CursorPos 30 (- 20)]) globals_init
     \<in> set (render_loop globals_init [key_frame 1 GLFW_RELEASE [CursorPos 0 0, CursorPos 30 (- 20)]])
   \<and> vlength (front (cam (frame_step
        (key_frame 1 GLFW_RELEASE [CursorPos 0 0, CursorPos 30 (- 20)]) globals_init))) = 1"
proof -
  have "frame_step (key_frame 1 GLFW_RELEASE [CursorPos 0 0, CursorPos 30 (- 20)]) globals_init
     \<in> set (render_loop globals_init [key_frame 1 GLFW_RELEASE [CursorPos 0 0, CursorPos 30 (- 20)]])"
    by (simp add: globals_init_def)
  with front_always_unit
    [of 0 0 cam_init 0 "[key_frame 1 GLFW_RELEASE [CursorPos 0 0, CursorPos 30 (- 20)]]"]
  show ?thesis by blast
qed

lemma radians_startup_yaw: "radians (- 90) = - (pi / 2)"
  by (simp add: radians_def)

lemma look_zero_startup:
  assumes "yaw c = - 90" and "pitch c = 0" and "front c = Vec3 0 0 (- 1)"
  shows "look 0 0 c = c"
proof -
  have "normalize (Vec3 0 0 (- 1)) = Vec3 0 0 (- 1)"
    by (rule normalize_unit) simp
  then show ?thesis
    using assms by (simp add: look_def Let_def clamp_def radians_startup_yaw radians_def)
qed

lemma firstMouse_mouse_callback: "\<not> firstMouse (mouse_callback x y g)"
  by (simp add: mouse_callback_def Let_def)

lemma reachable_before_first_mouse:
  "reachable s \<Longrightarrow> firstMouse s \<Longrightarrow>
   yaw (cam s) = - 90 \<and> pitch (cam s) = 0 \<and> front (cam s) = Vec3 0 0 (- 1)"
proof (induction rule: reachable.induct)
  case start
  show ?case by (simp add: globals_init_def cam_init_def)
next
  case (clock g t)
  then show ?case by (simp add: cam_tick firstMouse_tick)
next
  case (input g f)
  then show ?case by (simp add: orientation_processInput firstMouse_processInput)
next
  case (callback g e)
  then show ?case
    by (cases e) (simp_all add: firstMouse_mouse_callback scroll_callback_def)
qed

lemma look_fields:
  "yaw (look dx dy c) = yaw c + dx * 0.1"
  "pitch (look dx dy c) = min (max (pitch c + dy * 0.1) (- 89)) 89"
  "pos (look dx dy c) = pos c" "up (look dx dy c) = up c" "zoom (look dx dy c) = zoom c"
  by (simp_all add: look_def Let_def clamp_def)

text \<open>Claim C10. In a state the program can reach with \<^verbatim>\<open>firstMouse\<close> still set, a cursor
  event at any position \<open>(x, y)\<close> leaves the whole camera as it is (the look update it makes
  has delta zero), records \<open>(x, y)\<close> as the reference position and clears the flag. Once
  the flag is cleared, an event rotates the camera by the delta from the recorded
  position: the yaw grows by \<open>(x - lastX) * 0.1\<close> degrees, the pitch by
  \<open>(lastY - y) * 0.1\<close> degrees up to the clamp at -89 and 89, the front vector is the
  direction of the new yaw and pitch, position, up vector and zoom stay, and \<open>(x, y)\<close>
  becomes the recorded position.\<close>

theorem first_mouse_event:
  "(reachable s \<and> firstMouse s \<longrightarrow>
      cam (mouse_callback x y s) = cam s \<and> cam (mouse_callback x y s) = look 0 0 (cam s)
      \<and> lastX (mouse_callback x y s) = x \<and> lastY (mouse_callback x y s) = y
      \<and> \<not> firstMouse (mouse_callback x y s))
   \<and> (\<not> firstMouse s \<longrightarrow>
      cam (mouse_callback x y s) = look (x - lastX s) (lastY s - y) (cam s)
      \<and> yaw (cam (mouse_callback x y s)) = yaw (cam s) + (x - lastX s) * 0.1
      \<and> pitch (cam (mouse_callback x y s))
          = min (max (pitch (cam s) + (lastY s - y) * 0.1) (- 89)) 89
      \<and> front (cam (mouse_callback x y s))
          = Vec3 (cos (yaw (cam (mouse_callback x y s)) * (pi / 180))
                    * cos (pitch (cam (mouse_callback x y s)) * (pi / 180)))
                 (sin (pitch (cam (mouse_callback x y s)) * (pi / 180)))
                 (sin (yaw (cam (mouse_callback x y s)) * (pi / 180))
                    * cos (pitch (cam (mouse_callback x y s)) * (pi / 180)))
      \<and> pos (cam (mouse_callback x y s)) = pos (cam s)
      \<and> up (cam (mouse_callback x y s)) = up (cam s)
      \<and> zoom (cam (mouse_callback x y s)) = zoom (cam s)
      \<and> lastX (mouse_callback x y s) = x \<and> lastY (mouse_callback x y s) = y
      \<and> \<not> firstMouse (mouse_callback x y s))"
proof (intro conjI impI)
  assume a: "reachable s \<and> firstMouse s"
  then have "look 0 0 (cam s) = cam s"
    using reachable_before_first_mouse [of s] by (intro look_zero_startup) simp_all
  with a show "cam (mouse_callback x y s) = cam s"
    by (simp add: cam_mouse_callback)
  from a show "cam (mouse_callback x y s) = look 0 0 (cam s)"
    by (simp add: cam_mouse_callback)
next
  assume b: "\<not> firstMouse s"
  then have c: "cam (mouse_callback x y s) = look (x - lastX s) (lastY s - y) (cam s)"
    by (simp add: cam_mouse_callback)
  show "front (cam (mouse_callback x y s))
          = Vec3 (cos (yaw (cam (mouse_callback x y s)) * (pi / 180))
                    * cos (pitch (cam (mouse_callback x y s)) * (pi / 180)))
                 (sin (pitch (cam (mouse_callback x y s)) * (pi / 180)))
                 (sin (yaw (cam (mouse_callback x y s)) * (pi / 180))
                    * cos (pitch (cam (mouse_callback x y s)) * (pi / 180)))"
    unfolding c using front_look [of "x - lastX s" "lastY s - y" "cam s"]
    by (simp only: radians_def)
qed (simp_all add: cam_mouse_callback look_fields mouse_callback_def Let_def)

text \<open>From startup: the first event at \<open>(900, 40)\<close> does not move the camera; the second at
  \<open>(910, 30)\<close>, 10 pixels to the right and 10 up, turns the yaw from -90 to -89 and the pitch
  from 0 to 1.\<close>

theorem first_mouse_event_witness:
  "reachable globals_init \<and> firstMouse globals_init
   \<and> cam (mouse_callback 900 40 globals_init) = cam globals_init
   \<and> lastX (mouse_callback 900 40 globals_init) = 900
   \<and> lastY (mouse_callback 900 40 globals_init) = 40
   \<and> \<not> firstMouse (mouse_callback 900 40 globals_init)
   \<and> yaw (cam (mouse_callback 910 30 (mouse_callback 900 40 globals_init))) = - 89
   \<and> pitch (cam (mouse_callback 910 30 (mouse_callback 900 40 globals_init))) = 1
   \<and> front (cam (mouse_callback 910 30 (mouse_callback 900 40 globals_init)))
       = Vec3 (cos (- 89 * (pi / 180)) * cos (1 * (pi / 180))) (sin (1 * (pi / 180)))
              (sin (- 89 * (pi / 180)) * cos (1 * (pi / 180)))
   \<and> pos (cam (mouse_callback 910 30 (mouse_callback 900 40 globals_init))) = Vec3 0 8 20
   \<and> lastX (mouse_callback 910 30 (mouse_callback 900 40 globals_init)) = 910
   \<and> lastY (mouse_callback 910 30 (mouse_callback 900 40 globals_init)) = 30"
proof -
  have r: "reachable globals_init \<and> firstMouse globals_init"
    by (simp add: reachable.start) (simp add: globals_init_def)
  from r first_mouse_event [of globals_init 900 40]
  have one: "cam (mouse_callback 900 40 globals_init) = cam globals_init
      \<and> lastX (mouse_callback 900 40 globals_init) = 900
      \<and> lastY (mouse_callback 900 40 globals_init) = 40
      \<and> \<not> firstMouse (mouse_callback 900 40 globals_init)"
    by blast
  have c0: "yaw (cam globals_init) = - 90" "pitch (cam globals_init) = 0"
    "pos (cam globals_init) = Vec3 0 8 20"
    by (simp_all add: globals_init_def cam_init_def)
  note second = first_mouse_event [of "mouse_callback 900 40 globals_init" 910 30]
  from one second
  have "yaw (cam (mouse_callback 910 30 (mouse_callback 900 40 globals_init)))
        = yaw (cam (mouse_callback 900 40 globals_init))
          + (910 - lastX (mouse_callback 900 40 globals_init)) * 0.1"
    and "pitch (cam (mouse_callback 910 30 (mouse_callback 900 40 globals_init)))
        = min (max (pitch (cam (mouse_callback 900 40 globals_init))
            + (lastY (mouse_callback 900 40 globals_init) - 30) * 0.1) (- 89)) 89"
    and "pos (cam (mouse_callback 910 30 (mouse_callback 900 40 globals_init)))
        = pos (cam (mouse_callback 900 40 globals_init))"
    and l: "lastX (mouse_callback 910 30 (mouse_callback 900 40 globals_init)) = 910"
      "lastY (mouse_callback 910 30 (mouse_callback 900 40 globals_init)) = 30"
    by blast+
  with one c0
  have two: "yaw (cam (mouse_callback 910 30 (mouse_callback 900 40 globals_init))) = - 89"
    "pitch (cam (mouse_callback 910 30 (mouse_callback 900 40 globals_init))) = 1"
    "pos (cam (mouse_callback 910 30 (mouse_callback 900 40 globals_init))) = Vec3 0 8 20"
    by simp_all
  from one first_mouse_event [of "mouse_callback 900 40 globals_init" 910 30]
  have "front (cam (mouse_callback 910 30 (mouse_callback 900 40 globals_init)))
          = Vec3 (cos (yaw (cam (mouse_callback 910 30 (mouse_callback 900 40 globals_init))) * (pi / 180))
                    * cos (pitch (cam (mouse_callback 910 30 (mouse_callback 900 40 globals_init))) * (pi / 180)))
                 (sin (pitch (cam (mouse_callback 910 30 (mouse_callback 900 40 globals_init))) * (pi / 180)))
                 (sin (yaw (cam (mouse_callback 910 30 (mouse_callback 900 40 globals_init))) * (pi / 180))
                    * cos (pitch (cam (mouse_callback 910 30 (mouse_callback 900 40 globals_init))) * (pi / 180)))"
    by blast
  then have three: "front (cam (mouse_callback 910 30 (mouse_callback 900 40 globals_init)))
       = Vec3 (cos (- 89 * (pi / 180)) * cos (1 * (pi / 180))) (sin (1 * (pi / 180)))
              (sin (- 89 * (pi / 180)) * cos (1 * (pi / 180)))"
    by (simp only: two)
  from r one two three l show ?thesis by blast
qed

subsection \<open>The animation clock\<close>

lemma clock_tick:
  "animTime (tick t g) = (if paused g then animTime g else animTime g + (t - lastFrame g))"
  "lastFrame (tick t g) = t" "dt (tick t g) = t - lastFrame g"
  "paused (tick t g) = paused g" "prev (tick t g) = prev g"
  "shouldClose (tick t g) = shouldClose g"
  by (simp_all add: tick_def Let_def)

lemma clock_processInput:
  "animTime (processInput f g) = animTime g" "lastFrame (processInput f g) = lastFrame g"
  "dt (processInput f g) = dt g"
  "paused (processInput f g) =
     (if key_space f = GLFW_PRESS \<and> prev g = GLFW_RELEASE then \<not> paused g else paused g)"
  "prev (processInput f g) = key_space f"
  "shouldClose (processInput f g) = (shouldClose g \<or> key_escape f = GLFW_PRESS)"
  by (simp_all add: processInput_def Let_def)

lemma clock_dispatch:
  "animTime (dispatch e g) = animTime g" "lastFrame (dispatch e g) = lastFrame g"
  "dt (dispatch e g) = dt g" "paused (dispatch e g) = paused g" "prev (dispatch e g) = prev g"
  "shouldClose (dispatch e g) = (shouldClose g \<or> e = WindowClose)"
  by (cases e; simp add: mouse_callback_def scroll_callback_def Let_def)+

lemma clock_pollEvents:
  "animTime (pollEvents es g) = animTime g" "lastFrame (pollEvents es g) = lastFrame g"
  "dt (pollEvents es g) = dt g" "paused (pollEvents es g) = paused g"
  "prev (pollEvents es g) = prev g"
  "shouldClose (pollEvents es g) = (shouldClose g \<or> WindowClose \<in> set es)"
  by (induction es arbitrary: g; auto simp add: clock_dispatch)+

lemma clock_frame_step:
  "animTime (frame_step f g) =
     (if paused g then animTime g else animTime g + (now f - lastFrame g))"
  "lastFrame (frame_step f g) = now f" "dt (frame_step f g) = now f - lastFrame g"
  "paused (frame_step f g) =
     (if key_space f = GLFW_PRESS \<and> prev g = GLFW_RELEASE then \<not> paused g else paused g)"
  "prev (frame_step f g) = key_space f"
  "shouldClose (frame_step f g) =
     (shouldClose g \<or> key_escape f = GLFW_PRESS \<or> WindowClose \<in> set (events f))"
  by (simp_all add: frame_step_def clock_pollEvents clock_processInput clock_tick)

lemma render_loop_nonempty: "render_loop g fs \<noteq> []"
  by (cases fs) simp_all

lemma render_loop_hd: "render_loop g fs ! 0 = g"
  by (cases fs) simp_all

lemma render_loop_step:
  "Suc k < length (render_loop g fs) \<Longrightarrow>
   k < length fs \<and> render_loop g fs ! Suc k = frame_step (fs ! k) (render_loop g fs ! k)"
proof (induction fs arbitrary: g k)
  case Nil
  then show ?case by simp
next
  case (Cons f fs)
  show ?case
  proof (cases "shouldClose g")
    case True
    with Cons.prems show ?thesis by simp
  next
    case False
    show ?thesis
    proof (cases k)
      case 0
      with False show ?thesis by (simp add: render_loop_hd)
    next
      case (Suc k')
      with False Cons.prems have "Suc k' < length (render_loop (frame_step f g) fs)" by simp
      from Cons.IH [OF this] False Suc show ?thesis by simp
    qed
  qed
qed

lemma animTime_grows:
  "sorted (lastFrame g # map now fs) \<Longrightarrow>
   sorted (map animTime (render_loop g fs)) \<and>
   (\<forall>s \<in> set (render_loop g fs). animTime g \<le> animTime s)"
proof (induction fs arbitrary: g)
  case Nil
  then show ?case by simp
next
  case (Cons f fs)
  show ?case
  proof (cases "shouldClose g")
    case True
    then show ?thesis by simp
  next
    case False
    from Cons.prems have le: "lastFrame g \<le> now f" and rest: "sorted (now f # map now fs)"
      by simp_all
    from rest have "sorted (lastFrame (frame_step f g) # map now fs)"
      by (simp add: clock_frame_step)
    from Cons.IH [OF this]
    have ih: "sorted (map animTime (render_loop (frame_step f g) fs))"
      "\<forall>s \<in> set (render_loop (frame_step f g) fs). animTime (frame_step f g) \<le> animTime s"
      by simp_all
    from le have "animTime g \<le> animTime (frame_step f g)"
      by (simp add: clock_frame_step)
    with ih(2) have "\<forall>s \<in> set (render_loop (frame_step f g) fs). animTime g \<le> animTime s"
      by fastforce
    with ih(1) False show ?thesis by simp
  qed
qed

lemma animTime_frozen:
  "i \<le> j \<Longrightarrow> j < length (render_loop g fs) \<Longrightarrow>
   (\<forall>k. i \<le> k \<and> k < j \<longrightarrow> paused (render_loop g fs ! k)) \<Longrightarrow>
   animTime (render_loop g fs ! j) = animTime (render_loop g fs ! i)"
proof (induction j rule: dec_induct)
  case base
  show ?case by simp
next
  case (step n)
  from step.prems have "Suc n < length (render_loop g fs)" by simp
  then have "render_loop g fs ! Suc n = frame_step (fs ! n) (render_loop g fs ! n)"
    by (simp add: render_loop_step)
  moreover from step have "paused (render_loop g fs ! n)" by simp
  ultimately have "animTime (render_loop g fs ! Suc n) = animTime (render_loop g fs ! n)"
    by (simp add: clock_frame_step)
  with step show ?case by simp
qed

text \<open>Claim C4. Over the states \<open>s\<^sub>0, s\<^sub>1, ...\<close> at the head of the render loop: when the clock
  readings do not run backwards, \<^verbatim>\<open>animTime\<close> is non-decreasing along the whole
  sequence; over any stretch of iterations that all start paused, \<^verbatim>\<open>animTime\<close> does not
  change at all, whatever the clock readings are; and every iteration, paused or not,
  sets \<^verbatim>\<open>lastFrame\<close> to its clock reading and \<^verbatim>\<open>dt\<close> to the difference from the
  previous one.\<close>

theorem animTime_monotone_frozen:
  "(sorted (lastFrame g # map now fs) \<longrightarrow> sorted (map animTime (render_loop g fs)))
   \<and> (\<forall>i j. i \<le> j \<and> j < length (render_loop g fs)
          \<and> (\<forall>k. i \<le> k \<and> k < j \<longrightarrow> paused (render_loop g fs ! k))
        \<longrightarrow> animTime (render_loop g fs ! j) = animTime (render_loop g fs ! i))
   \<and> (\<forall>k. Suc k < length (render_loop g fs)
        \<longrightarrow> lastFrame (render_loop g fs ! Suc k) = now (fs ! k)
          \<and> dt (render_loop g fs ! Suc k) = now (fs ! k) - lastFrame (render_loop g fs ! k))"
proof (intro conjI allI impI)
  assume "sorted (lastFrame g # map now fs)"
  then show "sorted (map animTime (render_loop g fs))"
    by (simp add: animTime_grows)
next
  fix i j
  assume "i \<le> j \<and> j < length (render_loop g fs)
          \<and> (\<forall>k. i \<le> k \<and> k < j \<longrightarrow> paused (render_loop g fs ! k))"
  then show "animTime (render_loop g fs ! j) = animTime (render_loop g fs ! i)"
    by (intro animTime_frozen) simp_all
next
  fix k
  assume "Suc k < length (render_loop g fs)"
  then have s: "render_loop g fs ! Suc k = frame_step (fs ! k) (render_loop g fs ! k)"
    by (simp add: render_loop_step)
  show "lastFrame (render_loop g fs ! Suc k) = now (fs ! k)"
    by (simp add: s clock_frame_step)
  show "dt (render_loop g fs ! Suc k) = now (fs ! k) - lastFrame (render_loop g fs ! k)"
    by (simp add: s clock_frame_step)
qed

text \<open>Space pressed at time 1 and held at time 3, released at time 7: the clock stops at 1.\<close>

theorem animTime_monotone_frozen_witness:
  "sorted (lastFrame globals_init
      # map now [key_frame 1 GLFW_PRESS [], key_frame 3 GLFW_PRESS [], key_frame 7 GLFW_RELEASE []])
   \<and> sorted (map animTime (render_loop globals_init
        [key_frame 1 GLFW_PRESS [], key_frame 3 GLFW_PRESS [], key_frame 7 GLFW_RELEASE []]))
   \<and> paused (render_loop globals_init
        [key_frame 1 GLFW_PRESS [], key_frame 3 GLFW_PRESS [], key_frame 7 GLFW_RELEASE []] ! 1)
   \<and> paused (render_loop globals_init
        [key_frame 1 GLFW_PRESS [], key_frame 3 GLFW_PRESS [], key_frame 7 GLFW_RELEASE []] ! 2)
   \<and> animTime (render_loop globals_init
        [key_frame 1 GLFW_PRESS [], key_frame 3 GLFW_PRESS [], key_frame 7 GLFW_RELEASE []] ! 3) = 1
   \<and> animTime (render_loop globals_init
        [key_frame 1 GLFW_PRESS [], key_frame 3 GLFW_PRESS [], key_frame 7 GLFW_RELEASE []] ! 1) = 1
   \<and> lastFrame (render_loop globals_init
        [key_frame 1 GLFW_PRESS [], key_frame 3 GLFW_PRESS [], key_frame 7 GLFW_RELEASE []] ! 3) = 7
   \<and> dt (render_loop globals_init
        [key_frame 1 GLFW_PRESS [], key_frame 3 GLFW_PRESS [], key_frame 7 GLFW_RELEASE []] ! 3) = 4"
proof -
  let ?f1 = "key_frame 1 GLFW_PRESS []"
  let ?f2 = "key_frame 3 GLFW_PRESS []"
  let ?f3 = "key_frame 7 GLFW_RELEASE []"
  let ?s1 = "frame_step ?f1 globals_init"
  let ?s2 = "frame_step ?f2 ?s1"
  let ?s3 = "frame_step ?f3 ?s2"
  let ?L = "render_loop globals_init [?f1, ?f2, ?f3]"
  have nc: "\<not> shouldClose globals_init" "\<not> shouldClose ?s1" "\<not> shouldClose ?s2"
    by (simp_all add: clock_frame_step key_frame_def globals_init_def)
  then have tr: "?L = [globals_init, ?s1, ?s2, ?s3]" by simp
  have p: "paused (?L ! 1)" "paused (?L ! 2)"
    unfolding tr by (simp_all add: clock_frame_step key_frame_def globals_init_def)
  have a1: "animTime (?L ! 1) = 1"
    unfolding tr by (simp add: clock_frame_step key_frame_def globals_init_def)
  have srt: "sorted (lastFrame globals_init # map now [?f1, ?f2, ?f3])"
    by (simp add: key_frame_def globals_init_def)
  have frozen: "\<forall>k. 1 \<le> k \<and> k < 3 \<longrightarrow> paused (?L ! k)"
  proof (intro allI impI)
    fix k :: nat
    assume "1 \<le> k \<and> k < 3"
    then have "k = 1 \<or> k = 2" by arith
    with p show "paused (?L ! k)" by auto
  qed
  have len: "(1::nat) \<le> 3 \<and> 3 < length ?L \<and> Suc 2 < length ?L"
    unfolding tr by simp
  note main = animTime_monotone_frozen [of globals_init "[?f1, ?f2, ?f3]"]
  from main srt have mono: "sorted (map animTime ?L)" by blast
  from main len frozen have "animTime (?L ! 3) = animTime (?L ! 1)" by blast
  with a1 have a3: "animTime (?L ! 3) = 1" by simp
  from main len have "lastFrame (?L ! Suc 2) = now ([?f1, ?f2, ?f3] ! 2)
      \<and> dt (?L ! Suc 2) = now ([?f1, ?f2, ?f3] ! 2) - lastFrame (?L ! 2)"
    by blast
  moreover have "lastFrame (?L ! 2) = 3"
    unfolding tr by (simp add: clock_frame_step key_frame_def)
  moreover have "Suc 2 = 3" by simp
  ultimately have bk: "lastFrame (?L ! 3) = 7" "dt (?L ! 3) = 4"
    by (simp_all add: key_frame_def del: render_loop.simps)
  from srt mono p a3 a1 bk show ?thesis by blast
qed

lemma render_loop_append:
  "\<not> shouldClose g \<Longrightarrow> \<forall>f \<in> set fs. no_close f \<Longrightarrow>
   render_loop g (fs @ rest) =
     butlast (render_loop g fs) @ render_loop (last (render_loop g fs)) rest"
proof (induction fs arbitrary: g)
  case Nil
  then show ?case by simp
next
  case (Cons f fs)
  from Cons.prems have "\<not> shouldClose (frame_step f g)"
    by (cases "key_escape f") (simp_all add: clock_frame_step no_close_def)
  moreover from Cons.prems have "\<forall>f \<in> set fs. no_close f" by simp
  ultimately have "render_loop (frame_step f g) (fs @ rest) =
     butlast (render_loop (frame_step f g) fs)
     @ render_loop (last (render_loop (frame_step f g) fs)) rest"
    by (rule Cons.IH)
  with Cons.prems(1) show ?case by (simp add: render_loop_nonempty)
qed

lemma quiet_segment:
  assumes "\<forall>f \<in> set fs. no_close f \<and> key_space f = k"
    and "k = GLFW_PRESS \<longrightarrow> prev g = GLFW_PRESS"
    and "\<not> shouldClose g"
  shows "map paused (render_loop g fs) = replicate (Suc (length fs)) (paused g)
     \<and> \<not> shouldClose (last (render_loop g fs))
     \<and> paused (last (render_loop g fs)) = paused g
     \<and> prev (last (render_loop g fs)) = (if fs = [] then prev g else k)
     \<and> lastFrame (last (render_loop g fs)) = (if fs = [] then lastFrame g else now (last fs))
     \<and> animTime (last (render_loop g fs)) =
         (if paused g then animTime g
          else animTime g + (lastFrame (last (render_loop g fs)) - lastFrame g))"
  using assms
proof (induction fs arbitrary: g)
  case Nil
  then show ?case by simp
next
  case (Cons f fs)
  let ?g = "frame_step f g"
  from Cons.prems have f: "no_close f" "key_space f = k" by simp_all
  from f Cons.prems(3) have close: "\<not> shouldClose ?g"
    by (cases "key_escape f") (simp_all add: clock_frame_step no_close_def)
  from f Cons.prems(2) have same: "paused ?g = paused g"
    by (cases k) (simp_all add: clock_frame_step)
  from f have pv: "k = GLFW_PRESS \<longrightarrow> prev ?g = GLFW_PRESS"
    by (simp add: clock_frame_step)
  from Cons.prems(1) have "\<forall>f \<in> set fs. no_close f \<and> key_space f = k" by simp
  from Cons.IH [OF this pv close]
  have ih: "map paused (render_loop ?g fs) = replicate (Suc (length fs)) (paused ?g)"
    "\<not> shouldClose (last (render_loop ?g fs))"
    "paused (last (render_loop ?g fs)) = paused ?g"
    "prev (last (render_loop ?g fs)) = (if fs = [] then prev ?g else k)"
    "lastFrame (last (render_loop ?g fs)) = (if fs = [] then lastFrame ?g else now (last fs))"
    "animTime (last (render_loop ?g fs)) =
         (if paused ?g then animTime ?g
          else animTime ?g + (lastFrame (last (render_loop ?g fs)) - lastFrame ?g))"
    by simp_all
  have unfold: "render_loop g (f # fs) = g # render_loop ?g fs"
    using Cons.prems(3) by simp
  have l: "last (render_loop g (f # fs)) = last (render_loop ?g fs)"
    unfolding unfold by (simp add: render_loop_nonempty)
  have "map paused (render_loop g (f # fs)) = replicate (Suc (length (f # fs))) (paused g)"
    unfolding unfold by (simp add: ih(1) same)
  moreover have "prev (last (render_loop g (f # fs))) = k"
    unfolding l ih(4) using f by (simp add: clock_frame_step)
  moreover have "lastFrame (last (render_loop g (f # fs))) = now (last (f # fs))"
    unfolding l ih(5) by (simp add: clock_frame_step)
  moreover have "animTime (last (render_loop g (f # fs))) =
         (if paused g then animTime g
          else animTime g + (lastFrame (last (render_loop g (f # fs))) - lastFrame g))"
    unfolding l ih(6) same by (simp add: clock_frame_step)
  ultimately show ?case
    using ih(2,3) same Cons.prems(3) by (simp add: render_loop_nonempty)
qed

lemma toggle_cycle:
  assumes nc: "\<not> shouldClose g" and pv: "prev g = GLFW_RELEASE"
    and hold: "\<forall>f \<in> set (p # hold). no_close f \<and> key_space f = GLFW_PRESS"
    and rel: "rel \<noteq> []" "\<forall>f \<in> set rel. no_close f \<and> key_space f = GLFW_RELEASE"
  shows "map paused (render_loop g ((p # hold) @ rel)) =
           paused g # replicate (length (p # hold) + length rel) (\<not> paused g)
     \<and> \<not> shouldClose (last (render_loop g ((p # hold) @ rel)))
     \<and> paused (last (render_loop g ((p # hold) @ rel))) = (\<not> paused g)
     \<and> prev (last (render_loop g ((p # hold) @ rel))) = GLFW_RELEASE
     \<and> lastFrame (last (render_loop g ((p # hold) @ rel))) = now (last rel)
     \<and> animTime (last (render_loop g ((p # hold) @ rel))) =
         (if paused g then animTime g + (now (last rel) - now p)
          else animTime g + (now p - lastFrame g))"
proof -
  let ?g1 = "frame_step p g"
  let ?g2 = "last (render_loop ?g1 hold)"
  let ?g3 = "last (render_loop ?g2 rel)"
  from hold have p: "no_close p" "key_space p = GLFW_PRESS" by simp_all
  from p nc have nc1: "\<not> shouldClose ?g1"
    by (cases "key_escape p") (simp_all add: clock_frame_step no_close_def)
  from p pv have g1: "paused ?g1 = (\<not> paused g)" "prev ?g1 = GLFW_PRESS"
    "lastFrame ?g1 = now p"
    "animTime ?g1 = (if paused g then animTime g else animTime g + (now p - lastFrame g))"
    by (simp_all add: clock_frame_step)
  from hold have h: "\<forall>f \<in> set hold. no_close f \<and> key_space f = GLFW_PRESS" by simp
  from quiet_segment [OF h _ nc1] g1(2)
  have q1: "map paused (render_loop ?g1 hold) = replicate (Suc (length hold)) (paused ?g1)"
    "\<not> shouldClose ?g2" "paused ?g2 = paused ?g1"
    "prev ?g2 = (if hold = [] then prev ?g1 else GLFW_PRESS)"
    "animTime ?g2 = (if paused ?g1 then animTime ?g1
       else animTime ?g1 + (lastFrame ?g2 - lastFrame ?g1))"
    by simp_all
  from quiet_segment [OF rel(2) _ q1(2)]
  have q2: "map paused (render_loop ?g2 rel) = replicate (Suc (length rel)) (paused ?g2)"
    "\<not> shouldClose ?g3" "paused ?g3 = paused ?g2"
    "prev ?g3 = (if rel = [] then prev ?g2 else GLFW_RELEASE)"
    "lastFrame ?g3 = (if rel = [] then lastFrame ?g2 else now (last rel))"
    "animTime ?g3 = (if paused ?g2 then animTime ?g2
       else animTime ?g2 + (lastFrame ?g3 - lastFrame ?g2))"
    by simp_all
  from h have "\<forall>f \<in> set hold. no_close f" by simp
  from render_loop_append [OF nc1 this, of rel]
  have split: "render_loop g ((p # hold) @ rel) =
      g # butlast (render_loop ?g1 hold) @ render_loop ?g2 rel"
    using nc by simp
  have l: "last (render_loop g ((p # hold) @ rel)) = ?g3"
    unfolding split by (simp add: render_loop_nonempty)
  have "replicate (Suc (length hold)) (\<not> paused g)
      = replicate (length hold) (\<not> paused g) @ [\<not> paused g]"
    by (simp add: replicate_append_same)
  then have b: "map paused (butlast (render_loop ?g1 hold))
      = replicate (length hold) (\<not> paused g)"
    by (simp only: map_butlast q1(1) g1(1) butlast_snoc)
  have "map paused (render_loop g ((p # hold) @ rel)) =
      paused g # (replicate (length hold) (\<not> paused g)
        @ replicate (Suc (length rel)) (\<not> paused g))"
    unfolding split by (simp only: list.map map_append b q2(1) q1(3) g1(1))
  also have "\<dots> = paused g # replicate (length (p # hold) + length rel) (\<not> paused g)"
    by (simp only: replicate_add [symmetric]) simp
  finally have "map paused (render_loop g ((p # hold) @ rel)) =
      paused g # replicate (length (p # hold) + length rel) (\<not> paused g)" .
  moreover have "animTime ?g3 =
         (if paused g then animTime g + (now (last rel) - now p)
          else animTime g + (now p - lastFrame g))"
    using rel(1) by (simp add: q2(6,5) q1(3,5) g1)
  ultimately show ?thesis
    unfolding l using q2(2,3,4,5) q1(3) g1(1) rel(1) by simp
qed

text \<open>Claim C7. Start running, with the space key up. Hold the key for one or more
  iterations, release it for one or more, and do both once more. Then the pause flag
  flips exactly once per cycle, at the first iteration that sees the key down (paused
  throughout the first cycle after that, running again from the first press of the second
  cycle), the clock ends running, and \<^verbatim>\<open>animTime\<close> has advanced by the wall-clock time up to
  the first press plus the time since the second press: the time between the two presses
  does not count.\<close>

theorem pause_twice_resumes:
  assumes "\<not> shouldClose g" and "\<not> paused g" and "prev g = GLFW_RELEASE"
    and "hold1 \<noteq> []" and "rel1 \<noteq> []" and "hold2 \<noteq> []" and "rel2 \<noteq> []"
    and "\<forall>f \<in> set (hold1 @ hold2). no_close f \<and> key_space f = GLFW_PRESS"
    and "\<forall>f \<in> set (rel1 @ rel2). no_close f \<and> key_space f = GLFW_RELEASE"
  shows "map paused (render_loop g (hold1 @ rel1 @ hold2 @ rel2)) =
           False # replicate (length hold1 + length rel1) True
             @ replicate (length hold2 + length rel2) False
     \<and> \<not> paused (last (render_loop g (hold1 @ rel1 @ hold2 @ rel2)))
     \<and> animTime (last (render_loop g (hold1 @ rel1 @ hold2 @ rel2))) =
         animTime g + (now (hd hold1) - lastFrame g) + (now (last rel2) - now (hd hold2))"
proof -
  from assms(4) obtain p1 h1 where hold1: "hold1 = p1 # h1" by (cases hold1) auto
  from assms(6) obtain p2 h2 where hold2: "hold2 = p2 # h2" by (cases hold2) auto
  let ?c1 = "(p1 # h1) @ rel1"
  let ?c2 = "(p2 # h2) @ rel2"
  let ?s1 = "last (render_loop g ?c1)"
  from assms(8) have a1: "\<forall>f \<in> set (p1 # h1). no_close f \<and> key_space f = GLFW_PRESS"
    and a2: "\<forall>f \<in> set (p2 # h2). no_close f \<and> key_space f = GLFW_PRESS"
    unfolding hold1 hold2 by simp_all
  from assms(9) have r1: "\<forall>f \<in> set rel1. no_close f \<and> key_space f = GLFW_RELEASE"
    and r2: "\<forall>f \<in> set rel2. no_close f \<and> key_space f = GLFW_RELEASE"
    by simp_all
  from toggle_cycle [OF assms(1) assms(3) a1 assms(5) r1] assms(2)
  have c1: "map paused (render_loop g ?c1) = False # replicate (length (p1 # h1) + length rel1) True"
    "\<not> shouldClose ?s1" "paused ?s1" "prev ?s1 = GLFW_RELEASE"
    "animTime ?s1 = animTime g + (now p1 - lastFrame g)"
    by simp_all
  from toggle_cycle [OF c1(2) c1(4) a2 assms(7) r2] c1(3)
  have c2: "map paused (render_loop ?s1 ?c2) = True # replicate (length (p2 # h2) + length rel2) False"
    "\<not> paused (last (render_loop ?s1 ?c2))"
    "animTime (last (render_loop ?s1 ?c2)) = animTime ?s1 + (now (last rel2) - now p2)"
    by simp_all
  from a1 r1 have "\<forall>f \<in> set ?c1. no_close f" by auto
  from render_loop_append [OF assms(1) this, of ?c2]
  have split: "render_loop g (?c1 @ ?c2) = butlast (render_loop g ?c1) @ render_loop ?s1 ?c2" .
  have l: "last (render_loop g (?c1 @ ?c2)) = last (render_loop ?s1 ?c2)"
    unfolding split by (simp only: last_append render_loop_nonempty if_False)
  have n: "length (p1 # h1) + length rel1 = Suc (length h1 + length rel1)" by simp
  have "False # replicate (Suc (length h1 + length rel1)) True
      = (False # replicate (length h1 + length rel1) True) @ [True]"
    by (simp add: replicate_append_same)
  then have "butlast (False # replicate (length (p1 # h1) + length rel1) True) @ [True]
      = False # replicate (length (p1 # h1) + length rel1) True"
    unfolding n by (simp only: butlast_snoc)
  then have "butlast (map paused (render_loop g ?c1)) @ map paused (render_loop ?s1 ?c2) =
      False # replicate (length (p1 # h1) + length rel1) True
        @ replicate (length (p2 # h2) + length rel2) False"
    unfolding c1(1) c2(1) by (metis append.assoc append_Cons append_Nil)
  then have m: "map paused (render_loop g (?c1 @ ?c2)) =
      False # replicate (length (p1 # h1) + length rel1) True
        @ replicate (length (p2 # h2) + length rel2) False"
    unfolding split by (simp only: map_append map_butlast)
  have eq: "hold1 @ rel1 @ hold2 @ rel2 = ?c1 @ ?c2"
    unfolding hold1 hold2 by simp
  show ?thesis
    unfolding eq using m c2(2,3) c1(5)
    by (simp only: l) (simp add: hold1 hold2)
qed

text \<open>Presses seen at times 1 and 10, the run ends at time 12: \<open>animTime = 1 + 2\<close>.\<close>

theorem pause_twice_resumes_witness:
  "\<not> shouldClose globals_init \<and> \<not> paused globals_init \<and> prev globals_init = GLFW_RELEASE
   \<and> map paused (render_loop globals_init
        [key_frame 1 GLFW_PRESS [], key_frame 2 GLFW_PRESS [], key_frame 3 GLFW_RELEASE [],
         key_frame 10 GLFW_PRESS [], key_frame 11 GLFW_RELEASE [], key_frame 12 GLFW_RELEASE []])
       = [False, True, True, True, False, False, False]
   \<and> \<not> paused (last (render_loop globals_init
        [key_frame 1 GLFW_PRESS [], key_frame 2 GLFW_PRESS [], key_frame 3 GLFW_RELEASE [],
         key_frame 10 GLFW_PRESS [], key_frame 11 GLFW_RELEASE [], key_frame 12 GLFW_RELEASE []]))
   \<and> animTime (last (render_loop globals_init
        [key_frame 1 GLFW_PRESS [], key_frame 2 GLFW_PRESS [], key_frame 3 GLFW_RELEASE [],
         key_frame 10 GLFW_PRESS [], key_frame 11 GLFW_RELEASE [], key_frame 12 GLFW_RELEASE []]))
       = 3"
proof -
  have init: "\<not> shouldClose globals_init" "\<not> paused globals_init"
    "prev globals_init = GLFW_RELEASE" "lastFrame globals_init = 0" "animTime globals_init = 0"
    by (simp_all add: globals_init_def)
  have press: "\<forall>f \<in> set ([key_frame 1 GLFW_PRESS [], key_frame 2 GLFW_PRESS []]
        @ [key_frame 10 GLFW_PRESS []]). no_close f \<and> key_space f = GLFW_PRESS"
    by (simp add: key_frame_def no_close_def)
  have release: "\<forall>f \<in> set ([key_frame 3 GLFW_RELEASE []]
        @ [key_frame 11 GLFW_RELEASE [], key_frame 12 GLFW_RELEASE []]).
        no_close f \<and> key_space f = GLFW_RELEASE"
    by (simp add: key_frame_def no_close_def)
  have t: "now (key_frame 1 GLFW_PRESS []) = 1" "now (key_frame 10 GLFW_PRESS []) = 10"
    "now (key_frame 12 GLFW_RELEASE []) = 12"
    by (simp_all add: key_frame_def)
  from pause_twice_resumes [OF init(1,2,3) _ _ _ _ press release]
  show ?thesis
    using init by (simp add: t del: render_loop.simps)
qed

end
